theory Spec2Isabelle
  imports Complex_Main "HOL-Library.Multiset"
begin

section \<open>The fitness evaluator of the VRP use case\<close>

text \<open>
  The evaluator is \<^verbatim>\<open>fitness_func(individual, environment)\<close> of
  \<^verbatim>\<open>tests/simulate/test_genetic_algorithm_vrp.py\<close>. It is written with pandas; the
  model below follows it statement by statement, with the pandas operations it calls
  written out as list functions.

  Modelling decisions:
  \<^item> A DataFrame is the list of its rows, in row order. A cell that can hold NaN is an
    \<open>option\<close> (\<open>None\<close> is NaN). The columns \<^verbatim>\<open>latitude\<close> and \<^verbatim>\<open>longitude\<close>
    are never read by the evaluator and are left out.
  \<^item> Integer cells are unbounded integers and distances are real numbers: the rounding
    of 64-bit floats and the range of 64-bit integers are not modelled.
  \<^item> Python objects live in a heap and are named by their address, because the
    evaluator mutates a DataFrame in place (\<^verbatim>\<open>data['chromosomes'] = ...\<close>,
    \<^verbatim>\<open>sort_values(..., inplace=True)\<close>) and the environment must not see it.
  \<^item> Raised exceptions are values: every function that can raise returns \<open>error + 'a\<close>.
  \<^item> \<^verbatim>\<open>sort_values(by='chromosomes')\<close> is called without \<^verbatim>\<open>kind\<close>, so pandas sorts
    with its default kind \<^verbatim>\<open>quicksort\<close> (numpy's \<^verbatim>\<open>argsort\<close>). The documentation of
    \<^verbatim>\<open>sort_values\<close> names \<^verbatim>\<open>mergesort\<close> and \<^verbatim>\<open>stable\<close> as the only stable kinds,
    and which permutation quicksort returns on equal keys depends on the numpy build. The
    routine that computes the sorting permutation is therefore a parameter
    \<open>argsort\<close> of the model, and \<open>argsort_ok\<close> states what every kind of sort
    guarantees.
\<close>

subsection \<open>Data\<close>

datatype error = ValueError | IndexError | AttributeError

text \<open>A row of \<^verbatim>\<open>environment.df\<close> (\<^verbatim>\<open>demand_data\<close>).\<close>

record demand =
  zipcode :: "int option"
  weight :: "int option"
  pallets :: "int option"

text \<open>
  A row of the frame \<^verbatim>\<open>decoded\<close>: the demand columns, the column
  \<^verbatim>\<open>chromosomes\<close>, and the three columns \<^verbatim>\<open>get_distance_penalty\<close> adds later
  (\<open>None\<close> until they are assigned).
\<close>

record decoded = demand +
  chromosomes :: int
  prev_zip :: "int option"
  prev_chromosomes :: "int option"
  distance :: "real option"

text \<open>
  The objects the evaluator reaches: DataFrames, the lookup frame
  \<^verbatim>\<open>environment._dict['zip_lookup']\<close> as the list of its (zipcode, position) rows, and
  \<^verbatim>\<open>environment._dict['distance_matrix']\<close>, a list of lists.
\<close>

datatype obj =
    DataFrame "demand list"
  | Decoded "decoded list"
  | ZipLookup "(int \<times> int) list"
  | DistanceMatrix "real list list"

type_synonym addr = nat
type_synonym heap = "obj list"

record environment =
  df :: addr
  zip_lookup :: addr
  distance_matrix :: addr

definition deref :: "heap \<Rightarrow> addr \<Rightarrow> obj option" where
  "deref h a = (if a < length h then Some (h ! a) else None)"

definition max_weight :: int where "max_weight = 45000"
definition max_pallets :: int where "max_pallets = 25"

subsection \<open>The pandas and Python operations the evaluator calls\<close>

text \<open>
  \<^verbatim>\<open>data['chromosomes'] = individual\<close> for a list or array \<^verbatim>\<open>individual\<close>. pandas
  first runs \<^verbatim>\<open>DataFrame._ensure_valid_index(value)\<close>, whose test is
  \<^verbatim>\<open>if not len(self.index) and is_list_like(value) and len(value) > 0\<close>: a frame
  without rows takes the index of a non-empty value, and its existing columns are filled
  with NaN. In every other case \<^verbatim>\<open>require_length_match\<close> raises ValueError when the
  lengths differ.
\<close>

definition nan_row :: "int \<Rightarrow> decoded" where
  "nan_row g = \<lparr>zipcode = None, weight = None, pallets = None, chromosomes = g,
     prev_zip = None, prev_chromosomes = None, distance = None\<rparr>"

definition with_chromosome :: "demand \<Rightarrow> int \<Rightarrow> decoded" where
  "with_chromosome r g = \<lparr>zipcode = zipcode r, weight = weight r, pallets = pallets r,
     chromosomes = g, prev_zip = None, prev_chromosomes = None, distance = None\<rparr>"

definition setitem_chromosomes :: "int list \<Rightarrow> demand list \<Rightarrow> error + decoded list" where
  "setitem_chromosomes individual rows =
     (if rows = [] \<and> individual \<noteq> [] then Inr (map nan_row individual)
      else if length individual \<noteq> length rows then Inl ValueError
      else Inr (map2 with_chromosome rows individual))"

text \<open>\<^verbatim>\<open>Series.sum()\<close> skips NaN; the sum of no value is 0.\<close>

definition nansum :: "'a::comm_monoid_add option list \<Rightarrow> 'a" where
  "nansum xs = sum_list (map (\<lambda>c. case c of None \<Rightarrow> 0 | Some v \<Rightarrow> v) xs)"

text \<open>
  \<^verbatim>\<open>frame.groupby('chromosomes')[col].sum()\<close>: one entry per distinct key, in
  increasing key order, holding the sum of the group's cells.
\<close>

definition groupby_sum :: "(decoded \<Rightarrow> int option) \<Rightarrow> decoded list \<Rightarrow> (int \<times> int) list" where
  "groupby_sum col rows =
     map (\<lambda>k. (k, nansum (map col (filter (\<lambda>r. chromosomes r = k) rows))))
       (sort (remdups (map chromosomes rows)))"

text \<open>
  \<^verbatim>\<open>sort_values(by='chromosomes')\<close>: pandas computes the sorting permutation of the key
  column alone (\<^verbatim>\<open>nargsort\<close>, numpy's \<^verbatim>\<open>argsort\<close>) and takes the rows in that
  order.
\<close>

definition sort_values :: "(int list \<Rightarrow> nat list) \<Rightarrow> decoded list \<Rightarrow> decoded list" where
  "sort_values argsort rows = map (\<lambda>i. rows ! i) (argsort (map chromosomes rows))"

text \<open>
  What every sort kind guarantees of \<open>argsort ks\<close>: it is a permutation of the
  positions of \<open>ks\<close>, and the keys read in that order do not decrease.
\<close>

definition argsort_ok :: "(int list \<Rightarrow> nat list) \<Rightarrow> int list \<Rightarrow> bool" where
  "argsort_ok argsort ks \<longleftrightarrow>
     sort (argsort ks) = [0..<length ks] \<and> sorted (map (\<lambda>i. ks ! i) (argsort ks))"

text \<open>\<^verbatim>\<open>Series.shift()\<close>: every cell moves down one row; the first becomes NaN.\<close>

definition shift :: "'a option list \<Rightarrow> 'a option list" where
  "shift xs = (if xs = [] then [] else None # butlast xs)"

text \<open>
  \<^verbatim>\<open>lookup.loc[lookup['zipcode'] == z, 'position'].values[0]\<close>: the position of the
  first row of the lookup whose zipcode is \<open>z\<close>; indexing the empty selection raises
  IndexError.
\<close>

fun values0 :: "(int \<times> int) list \<Rightarrow> int \<Rightarrow> error + int" where
  "values0 [] z = Inl IndexError"
| "values0 ((z', p) # rest) z = (if z' = z then Inr p else values0 rest z)"

text \<open>Python's \<^verbatim>\<open>xs[i]\<close> on a list: a negative index counts from the end.\<close>

definition getitem :: "'a list \<Rightarrow> int \<Rightarrow> error + 'a" where
  "getitem xs i =
     (if 0 \<le> i \<and> i < int (length xs) then Inr (xs ! nat i)
      else if i < 0 \<and> - int (length xs) \<le> i then Inr (xs ! nat (int (length xs) + i))
      else Inl IndexError)"

text \<open>
  \<^verbatim>\<open>frame.apply(f, axis=1)\<close>: \<open>f\<close> on every row, top to bottom; the first
  exception ends it.
\<close>

fun apply_rows :: "('a \<Rightarrow> error + 'b) \<Rightarrow> 'a list \<Rightarrow> error + 'b list" where
  "apply_rows f [] = Inr []"
| "apply_rows f (x # xs) =
     (case f x of
        Inl e \<Rightarrow> Inl e
      | Inr y \<Rightarrow> (case apply_rows f xs of Inl e \<Rightarrow> Inl e | Inr ys \<Rightarrow> Inr (y # ys)))"

subsection \<open>fitness\_func\<close>

text \<open>
  \<^verbatim>\<open>decode()\<close>: \<^verbatim>\<open>data = environment.df.copy()\<close> allocates a new frame,
  \<^verbatim>\<open>data['chromosomes'] = individual\<close> writes to it. The result is the address of
  \<^verbatim>\<open>data\<close>. An \<^verbatim>\<open>environment.df\<close> that is not a DataFrame is an AttributeError.
\<close>

definition decode :: "int list \<Rightarrow> environment \<Rightarrow> heap \<Rightarrow> (error + addr) \<times> heap" where
  "decode individual environment h =
     (case deref h (df environment) of
        Some (DataFrame rows) \<Rightarrow>
          (let data = length h;
               h1 = h @ [DataFrame rows]
           in case setitem_chromosomes individual rows of
                Inl e \<Rightarrow> (Inl e, h1)
              | Inr rows' \<Rightarrow> (Inr data, h1[data := Decoded rows']))
      | _ \<Rightarrow> (Inl AttributeError, h))"

definition weight_penalty :: "decoded list \<Rightarrow> int" where
  "weight_penalty rows = sum_list (map (\<lambda>(k, s). \<bar>max_weight - s\<bar>) (groupby_sum weight rows))"

definition pallet_penalty :: "decoded list \<Rightarrow> int" where
  "pallet_penalty rows = sum_list (map (\<lambda>(k, s). \<bar>max_pallets - s\<bar>) (groupby_sum pallets rows))"

text \<open>
  \<^verbatim>\<open>get_distance(x)\<close> on a row \<open>x\<close>: NaN for a null zipcode, NaN when the row and the
  row above it differ in \<^verbatim>\<open>chromosomes\<close>, and otherwise the matrix entry at the two
  positions the lookup gives. The lookup and the matrix are read from the environment
  on every call.
\<close>

definition get_distance :: "environment \<Rightarrow> heap \<Rightarrow> decoded \<Rightarrow> error + real option" where
  "get_distance environment h x =
     (case (zipcode x, prev_zip x) of
        (Some z, Some pz) \<Rightarrow>
          if Some (chromosomes x) \<noteq> prev_chromosomes x then Inr None
          else
            (case deref h (zip_lookup environment) of
               Some (ZipLookup lookup) \<Rightarrow>
                 (case values0 lookup pz of
                    Inl e \<Rightarrow> Inl e
                  | Inr origin_index \<Rightarrow>
                      (case values0 lookup z of
                         Inl e \<Rightarrow> Inl e
                       | Inr dest_index \<Rightarrow>
                           (case deref h (distance_matrix environment) of
                              Some (DistanceMatrix m) \<Rightarrow>
                                (case getitem m origin_index of
                                   Inl e \<Rightarrow> Inl e
                                 | Inr row \<Rightarrow>
                                     (case getitem row dest_index of
                                        Inl e \<Rightarrow> Inl e
                                      | Inr d \<Rightarrow> Inr (Some d)))
                            | _ \<Rightarrow> Inl AttributeError)))
             | _ \<Rightarrow> Inl AttributeError)
      | _ \<Rightarrow> Inr None)"

definition set_prev_zip :: "int option list \<Rightarrow> decoded list \<Rightarrow> decoded list" where
  "set_prev_zip col rows = map2 (\<lambda>r c. r\<lparr>prev_zip := c\<rparr>) rows col"

definition set_prev_chromosomes :: "int option list \<Rightarrow> decoded list \<Rightarrow> decoded list" where
  "set_prev_chromosomes col rows = map2 (\<lambda>r c. r\<lparr>prev_chromosomes := c\<rparr>) rows col"

definition set_distance :: "real option list \<Rightarrow> decoded list \<Rightarrow> decoded list" where
  "set_distance col rows = map2 (\<lambda>r c. r\<lparr>distance := c\<rparr>) rows col"

text \<open>
  \<^verbatim>\<open>get_distance_penalty()\<close>, on the frame at address \<open>a\<close>: sort in place, add the
  two shifted columns, add the column of distances, return its sum. When
  \<^verbatim>\<open>apply\<close> raises, the frame keeps the columns written so far. On a frame without
  rows the model follows current pandas, where \<^verbatim>\<open>apply\<close> gives an empty column whose
  sum is 0; older versions of pandas raise there, when the result of \<^verbatim>\<open>apply\<close> is
  assigned.
\<close>

definition get_distance_penalty ::
  "(int list \<Rightarrow> nat list) \<Rightarrow> environment \<Rightarrow> addr \<Rightarrow> heap \<Rightarrow> (error + real) \<times> heap" where
  "get_distance_penalty argsort environment a h =
     (case deref h a of
        Some (Decoded rows) \<Rightarrow>
          (let rows1 = sort_values argsort rows;
               h1 = h[a := Decoded rows1];
               rows2 = set_prev_zip (shift (map zipcode rows1)) rows1;
               h2 = h1[a := Decoded rows2];
               rows3 = set_prev_chromosomes (shift (map (\<lambda>r. Some (chromosomes r)) rows2)) rows2;
               h3 = h2[a := Decoded rows3]
           in case apply_rows (get_distance environment h3) rows3 of
                Inl e \<Rightarrow> (Inl e, h3)
              | Inr ds \<Rightarrow>
                  (let rows4 = set_distance ds rows3;
                       h4 = h3[a := Decoded rows4]
                   in (Inr (nansum (map distance rows4)), h4)))
      | _ \<Rightarrow> (Inl AttributeError, h))"

text \<open>
  \<^verbatim>\<open>fitness_func(individual, environment)\<close>. The two capacity penalties are computed
  from \<^verbatim>\<open>decoded\<close> before it is sorted.
\<close>

definition fitness_func ::
  "(int list \<Rightarrow> nat list) \<Rightarrow> int list \<Rightarrow> environment \<Rightarrow> heap \<Rightarrow> (error + real) \<times> heap" where
  "fitness_func argsort individual environment h =
     (case decode individual environment h of
        (Inl e, h1) \<Rightarrow> (Inl e, h1)
      | (Inr a, h1) \<Rightarrow>
          (case deref h1 a of
             Some (Decoded rows) \<Rightarrow>
               (case get_distance_penalty argsort environment a h1 of
                  (Inl e, h2) \<Rightarrow> (Inl e, h2)
                | (Inr distance_penalty, h2) \<Rightarrow>
                    (Inr (real_of_int (weight_penalty rows) + real_of_int (pallet_penalty rows)
                          + distance_penalty), h2))
           | _ \<Rightarrow> (Inl AttributeError, h1)))"

section \<open>The evolution engine\<close>

text \<open>
  The test drives \<^verbatim>\<open>algs.BasicGeneticAlgorithm(...).run()\<close> and
  \<^verbatim>\<open>envs.BasicEnvironment\<close> of the package
  \<^verbatim>\<open>fyords.simulate.genetic_algorithm\<close>, whose modules are not among the sources.
  Every definition of this section is therefore modelled from the specification
  (sections 4.3, 4.4, 6 and 7). Randomness is explicit, as the specification asks: a
  generator is a stream of draws \<open>rng\<close> read at a position that every operator
  advances. The fitness function is a parameter; \<open>None\<close> is a raised exception.
\<close>

text \<open>
  Modelled from the spec: (the engine's module is not among the sources) an Individual is an ordered sequence of integers, one route id per demand record.
\<close>

type_synonym individual = "int list"

text \<open>
  Modelled from the spec: (the engine's module is not among the sources) an Individual paired with its fitness score (lower is better).
\<close>

type_synonym scored = "individual \<times> real"

text \<open>
  Modelled from the spec: (the engine's module is not among the sources) the injectable, seedable random generator, as the stream of its draws.
\<close>

type_synonym rng = "nat \<Rightarrow> nat"

text \<open>
  Modelled from the spec: (the engine's module is not among the sources) the error taxonomy of section 7 (the non-fatal ConvergenceNotice is not an error).
\<close>

datatype engine_error = ConfigurationError | DataError | FitnessEvaluationError

text \<open>
  Modelled from the spec: (the engine's module is not among the sources) the construction configuration of section 6. \<open>record_count\<close> is the number of
  demand records of the environment; \<open>tournament_size\<close> is the size k of the tournament and
  \<open>vehicle_count\<close> bounds the route-id domain \<open>[0, vehicle_count)\<close>. The seed of the
  generator is the stream itself, and the time budget (an external signal) is left out.
\<close>

record config =
  first_individual :: individual
  record_count :: nat
  n_generations :: nat
  population_size :: nat
  elitism_count :: nat
  mutation_rate :: real
  crossover_rate :: real
  tournament_size :: nat
  vehicle_count :: nat
  convergence_patience :: "nat option"

text \<open>
  Modelled from the spec: (the engine's module is not among the sources) the state of the engine while RUNNING: the current Population, the generation
  counter, the best Individual seen so far with its score, the per-generation trace of the
  best-so-far score, the number of generations without improvement, and the position of the
  generator.
\<close>

record engine_state =
  population :: "individual list"
  generation :: nat
  best :: "scored option"
  trace :: "(nat \<times> real) list"
  stale :: nat
  rng_pos :: nat

text \<open>
  Modelled from the spec: (the engine's module is not among the sources) the RunResult returned by \<^verbatim>\<open>run()\<close>.
\<close>

record run_result =
  best_individual :: individual
  best_score :: real
  run_trace :: "(nat \<times> real) list"

text \<open>
  Modelled from the spec: (the engine's module is not among the sources) the checks of the state INITIALIZED: \<open>population_size \<ge> 2\<close>, \<open>n_generations \<ge> 1\<close>
  and rates within \<open>[0, 1]\<close> (ConfigurationError otherwise; a tournament needs one candidate
  and the route-id domain one id), and the seed's length equal to the record count (DataError
  otherwise).
\<close>

definition validate :: "config \<Rightarrow> engine_error option" where
  "validate cfg =
     (if population_size cfg < 2 \<or> n_generations cfg < 1
         \<or> mutation_rate cfg < 0 \<or> 1 < mutation_rate cfg
         \<or> crossover_rate cfg < 0 \<or> 1 < crossover_rate cfg
         \<or> tournament_size cfg < 1 \<or> vehicle_count cfg < 1
      then Some ConfigurationError
      else if length (first_individual cfg) \<noteq> record_count cfg then Some DataError
      else None)"

text \<open>
  Modelled from the spec: (the engine's module is not among the sources) a uniform draw from \<open>[0, n)\<close>.
\<close>

definition uniform_below :: "rng \<Rightarrow> nat \<Rightarrow> nat \<Rightarrow> nat" where
  "uniform_below rnd pos n = rnd pos mod n"

text \<open>
  Modelled from the spec: (the engine's module is not among the sources) an event of probability \<open>p\<close>, decided by one draw.
\<close>

definition chance :: "rng \<Rightarrow> nat \<Rightarrow> real \<Rightarrow> bool" where
  "chance rnd pos p \<longleftrightarrow> real (rnd pos mod 1000) < p * 1000"

text \<open>
  Modelled from the spec: (the engine's module is not among the sources) mutation: every locus independently, with probability \<open>mutation_rate\<close>, is replaced
  by a uniformly random route id of the domain.
\<close>

fun mutate :: "rng \<Rightarrow> nat \<Rightarrow> real \<Rightarrow> nat \<Rightarrow> individual \<Rightarrow> individual \<times> nat" where
  "mutate rnd pos rate vc [] = ([], pos)"
| "mutate rnd pos rate vc (g # gs) =
     (let g' = (if chance rnd pos rate then int (uniform_below rnd (pos + 1) vc) else g);
          (gs', pos') = mutate rnd (pos + 2) rate vc gs
      in (g' # gs', pos'))"

text \<open>
  Modelled from the spec: (the engine's module is not among the sources) locus-wise uniform crossover: every gene of the child comes from parent A or
  parent B with equal probability.
\<close>

fun uniform_crossover :: "rng \<Rightarrow> nat \<Rightarrow> individual \<Rightarrow> individual \<Rightarrow> individual" where
  "uniform_crossover rnd pos (a # as) (b # bs) =
     (if even (rnd pos) then a else b) # uniform_crossover rnd (pos + 1) as bs"
| "uniform_crossover rnd pos as bs = []"

text \<open>
  Modelled from the spec: (the engine's module is not among the sources) crossover is applied with probability \<open>crossover_rate\<close>; otherwise the child is a
  clone of one parent.
\<close>

definition crossover :: "rng \<Rightarrow> nat \<Rightarrow> real \<Rightarrow> individual \<Rightarrow> individual \<Rightarrow> individual \<times> nat" where
  "crossover rnd pos rate a b =
     (if chance rnd pos rate then uniform_crossover rnd (pos + 1) a b else a,
      pos + 1 + length a)"

text \<open>
  Modelled from the spec: (the engine's module is not among the sources) a tournament keeps the best-scoring of the candidates sampled so far.
\<close>

fun tournament :: "rng \<Rightarrow> nat \<Rightarrow> nat \<Rightarrow> scored list \<Rightarrow> scored \<Rightarrow> scored" where
  "tournament rnd pos 0 candidates winner = winner"
| "tournament rnd pos (Suc k) candidates winner =
     (let c = candidates ! uniform_below rnd pos (length candidates)
      in tournament rnd (pos + 1) k candidates (if snd c < snd winner then c else winner))"

text \<open>
  Modelled from the spec: (the engine's module is not among the sources) tournament selection of size k: the best-scoring of k uniformly sampled
  Individuals of the scored Population.
\<close>

definition select :: "rng \<Rightarrow> nat \<Rightarrow> nat \<Rightarrow> scored list \<Rightarrow> scored" where
  "select rnd pos k candidates =
     tournament rnd (pos + 1) (k - 1) candidates
       (candidates ! uniform_below rnd pos (length candidates))"

text \<open>
  Modelled from the spec: (the engine's module is not among the sources) the remainder of the next Population: each child is selected, crossed over and
  mutated.
\<close>

fun breed :: "config \<Rightarrow> rng \<Rightarrow> nat \<Rightarrow> scored list \<Rightarrow> nat \<Rightarrow> individual list \<times> nat" where
  "breed cfg rnd pos candidates 0 = ([], pos)"
| "breed cfg rnd pos candidates (Suc n) =
     (let k = tournament_size cfg;
          a = select rnd pos k candidates;
          b = select rnd (pos + k) k candidates;
          (c, pos1) = crossover rnd (pos + 2 * k) (crossover_rate cfg) (fst a) (fst b);
          (c', pos2) = mutate rnd pos1 (mutation_rate cfg) (vehicle_count cfg) c;
          (rest, pos3) = breed cfg rnd pos2 candidates n
      in (c' # rest, pos3))"

text \<open>
  Modelled from the spec: (the engine's module is not among the sources) elitism: the top \<open>elitism_count\<close> Individuals by fitness, copied unchanged
  (the argument is the scored Population in increasing score order).
\<close>

definition elites :: "config \<Rightarrow> scored list \<Rightarrow> individual list" where
  "elites cfg ranked = map fst (take (elitism_count cfg) ranked)"

text \<open>
  Modelled from the spec: (the engine's module is not among the sources) the next Population is the elite followed by children until it again holds
  \<open>population_size\<close> Individuals.
\<close>

definition next_population :: "config \<Rightarrow> rng \<Rightarrow> nat \<Rightarrow> scored list \<Rightarrow> individual list \<times> nat" where
  "next_population cfg rnd pos ranked =
     (let kept = elites cfg ranked;
          (children, pos') = breed cfg rnd pos ranked (population_size cfg - length kept)
      in (kept @ children, pos'))"

text \<open>
  Modelled from the spec: (the engine's module is not among the sources) the fitness of every Individual of the Population; an error raised by the
  Fitness Evaluator is fatal (FitnessEvaluationError).
\<close>

fun evaluate :: "(individual \<Rightarrow> real option) \<Rightarrow> individual list \<Rightarrow> engine_error + scored list" where
  "evaluate fit [] = Inr []"
| "evaluate fit (x # xs) =
     (case fit x of
        None \<Rightarrow> Inl FitnessEvaluationError
      | Some s \<Rightarrow> (case evaluate fit xs of Inl e \<Rightarrow> Inl e | Inr rest \<Rightarrow> Inr ((x, s) # rest)))"

text \<open>
  Modelled from the spec: (the engine's module is not among the sources) the additional Individuals of the initial Population, each a perturbation of the
  seed (randomized gene reassignment; the specification gives no rate, the model reassigns a
  gene with probability one half).
\<close>

fun perturbed :: "rng \<Rightarrow> nat \<Rightarrow> nat \<Rightarrow> individual \<Rightarrow> nat \<Rightarrow> individual list \<times> nat" where
  "perturbed rnd pos vc seed 0 = ([], pos)"
| "perturbed rnd pos vc seed (Suc n) =
     (let (x, pos1) = mutate rnd pos (1 / 2) vc seed;
          (rest, pos2) = perturbed rnd pos1 vc seed n
      in (x # rest, pos2))"

text \<open>
  Modelled from the spec: (the engine's module is not among the sources) INITIALIZED: the configuration is validated and the initial Population is the
  seed followed by \<open>population_size - 1\<close> perturbed copies.
\<close>

definition initialize :: "config \<Rightarrow> rng \<Rightarrow> engine_error + engine_state" where
  "initialize cfg rnd =
     (case validate cfg of
        Some e \<Rightarrow> Inl e
      | None \<Rightarrow>
          (let (others, pos) =
                 perturbed rnd 0 (vehicle_count cfg) (first_individual cfg) (population_size cfg - 1)
           in Inr \<lparr>population = first_individual cfg # others, generation = 0, best = None,
                   trace = [], stale = 0, rng_pos = pos\<rparr>))"

text \<open>
  Modelled from the spec: (the engine's module is not among the sources) one generation of RUNNING: score every Individual, update the best seen so far
  (a strictly lower score replaces it) and record it in the trace, build the next
  Population.
\<close>

definition generation_step ::
  "config \<Rightarrow> (individual \<Rightarrow> real option) \<Rightarrow> rng \<Rightarrow> engine_state \<Rightarrow> engine_error + engine_state" where
  "generation_step cfg fit rnd st =
     (case evaluate fit (population st) of
        Inl e \<Rightarrow> Inl e
      | Inr candidates \<Rightarrow>
          (case sort_key snd candidates of
             [] \<Rightarrow> Inl ConfigurationError
           | leader # others \<Rightarrow>
               (let improved = (case best st of None \<Rightarrow> True | Some b \<Rightarrow> snd leader < snd b);
                    best' = (case best st of None \<Rightarrow> leader | Some b \<Rightarrow> if snd leader < snd b then leader else b);
                    (pop', pos') = next_population cfg rnd (rng_pos st) (leader # others)
                in Inr \<lparr>population = pop', generation = generation st + 1, best = Some best',
                        trace = trace st @ [(generation st, snd best')],
                        stale = (if improved then 0 else stale st + 1), rng_pos = pos'\<rparr>)))"

text \<open>
  Modelled from the spec: (the engine's module is not among the sources) the optional early stop: no improvement of the best score for
  \<open>convergence_patience\<close> consecutive generations.
\<close>

definition stop_early :: "config \<Rightarrow> engine_state \<Rightarrow> bool" where
  "stop_early cfg st = (case convergence_patience cfg of None \<Rightarrow> False | Some patience \<Rightarrow> patience \<le> stale st)"

text \<open>
  Modelled from the spec: (the engine's module is not among the sources) the generation loop, at most \<open>n_generations\<close> generations; an error aborts
  it.
\<close>

fun run_loop ::
  "config \<Rightarrow> (individual \<Rightarrow> real option) \<Rightarrow> rng \<Rightarrow> nat \<Rightarrow> engine_state \<Rightarrow> engine_error + engine_state" where
  "run_loop cfg fit rnd 0 st = Inr st"
| "run_loop cfg fit rnd (Suc remaining) st =
     (case generation_step cfg fit rnd st of
        Inl e \<Rightarrow> Inl e
      | Inr st' \<Rightarrow> if stop_early cfg st' then Inr st' else run_loop cfg fit rnd remaining st')"

text \<open>
  Modelled from the spec: (the engine's module is not among the sources) \<^verbatim>\<open>run()\<close>: initialise, run the generations, return the best Individual, its
  score and the trace.
\<close>

definition run :: "config \<Rightarrow> (individual \<Rightarrow> real option) \<Rightarrow> rng \<Rightarrow> engine_error + run_result" where
  "run cfg fit rnd =
     (case initialize cfg rnd of
        Inl e \<Rightarrow> Inl e
      | Inr st0 \<Rightarrow>
          (case run_loop cfg fit rnd (n_generations cfg) st0 of
             Inl e \<Rightarrow> Inl e
           | Inr st \<Rightarrow>
               (case best st of
                  None \<Rightarrow> Inl ConfigurationError
                | Some (x, s) \<Rightarrow> Inr \<lparr>best_individual = x, best_score = s, run_trace = trace st\<rparr>)))"

text \<open>
  Modelled from the spec: (the engine's module is not among the sources) the states the engine passes through: the initial state, and the state after
  each generation.
\<close>

inductive reachable ::
  "config \<Rightarrow> (individual \<Rightarrow> real option) \<Rightarrow> rng \<Rightarrow> engine_state \<Rightarrow> bool"
  for cfg fit rnd where
  initial: "initialize cfg rnd = Inr st \<Longrightarrow> reachable cfg fit rnd st"
| step: "reachable cfg fit rnd st \<Longrightarrow> generation_step cfg fit rnd st = Inr st' \<Longrightarrow>
         reachable cfg fit rnd st'"

section \<open>Definitions for the statements and the proofs\<close>

subsection \<open>The evaluator as a function of the environment's contents\<close>

text \<open>
  Lines 84 to 89 of \<^verbatim>\<open>get_distance\<close> for an origin zipcode \<open>pz\<close> and a destination
  zipcode \<open>z\<close>, with the lookup and the matrix already read from the heap.
\<close>

definition matrix_distance :: "(int \<times> int) list \<Rightarrow> real list list \<Rightarrow> int \<Rightarrow> int \<Rightarrow> error + real" where
  "matrix_distance lookup m pz z =
     (case values0 lookup pz of
        Inl e \<Rightarrow> Inl e
      | Inr origin_index \<Rightarrow>
          (case values0 lookup z of
             Inl e \<Rightarrow> Inl e
           | Inr dest_index \<Rightarrow>
               (case getitem m origin_index of
                  Inl e \<Rightarrow> Inl e
                | Inr row \<Rightarrow> getitem row dest_index)))"

text \<open>
  The cell \<^verbatim>\<open>get_distance\<close> computes for a row \<open>b\<close> whose row above is \<open>a\<close>.
\<close>

definition pair_cell :: "(int \<times> int) list \<Rightarrow> real list list \<Rightarrow> decoded \<Rightarrow> decoded \<Rightarrow> error + real option" where
  "pair_cell lookup m a b =
     (case (zipcode b, zipcode a) of
        (Some z, Some pz) \<Rightarrow>
          if chromosomes b \<noteq> chromosomes a then Inr None
          else (case matrix_distance lookup m pz z of Inl e \<Rightarrow> Inl e | Inr d \<Rightarrow> Inr (Some d))
      | _ \<Rightarrow> Inr None)"

text \<open>The sorted frame after the two shifted columns are added.\<close>

fun with_prev :: "decoded option \<Rightarrow> decoded list \<Rightarrow> decoded list" where
  "with_prev p [] = []"
| "with_prev p (r # rs) =
     r\<lparr>prev_zip := (case p of None \<Rightarrow> None | Some q \<Rightarrow> zipcode q),
       prev_chromosomes := map_option chromosomes p\<rparr> # with_prev (Some r) rs"

text \<open>The column \<^verbatim>\<open>distance\<close>: the cells from top to bottom, or the first error.\<close>

fun pair_cells :: "(int \<times> int) list \<Rightarrow> real list list \<Rightarrow> decoded option \<Rightarrow> decoded list \<Rightarrow> error + real option list" where
  "pair_cells lookup m p [] = Inr []"
| "pair_cells lookup m p (r # rs) =
     (case (case p of None \<Rightarrow> Inr None | Some q \<Rightarrow> pair_cell lookup m q r) of
        Inl e \<Rightarrow> Inl e
      | Inr c \<Rightarrow> (case pair_cells lookup m (Some r) rs of Inl e \<Rightarrow> Inl e | Inr cs \<Rightarrow> Inr (c # cs)))"

text \<open>
  The environment \<open>e\<close> in the heap \<open>h\<close> holds the demand rows, the lookup and the
  matrix given.
\<close>

definition env_at :: "heap \<Rightarrow> environment \<Rightarrow> demand list \<Rightarrow> (int \<times> int) list \<Rightarrow> real list list \<Rightarrow> bool" where
  "env_at h e rows lookup m \<longleftrightarrow>
     deref h (df e) = Some (DataFrame rows) \<and>
     deref h (zip_lookup e) = Some (ZipLookup lookup) \<and>
     deref h (distance_matrix e) = Some (DistanceMatrix m)"

subsection \<open>The score in the words of the specification\<close>


text \<open>The pairs of consecutive elements of a list.\<close>

definition consecutive :: "'a list \<Rightarrow> ('a \<times> 'a) list" where
  "consecutive xs = zip xs (tl xs)"





subsection \<open>Sort routines\<close>

text \<open>
  A stable routine (\<^verbatim>\<open>kind='stable'\<close>), and a routine that sorts by key and returns
  equal keys in reverse order; both are sorts by key.
\<close>

definition stable_argsort :: "int list \<Rightarrow> nat list" where
  "stable_argsort ks = map snd (sort_key fst (zip ks [0..<length ks]))"

definition reversing_argsort :: "int list \<Rightarrow> nat list" where
  "reversing_argsort ks = rev (stable_argsort (map uminus ks))"

subsection \<open>Indices, matrices and example data\<close>




definition mk_heap :: "demand list \<Rightarrow> (int \<times> int) list \<Rightarrow> real list list \<Rightarrow> heap" where
  "mk_heap rows lookup m = [DataFrame rows, ZipLookup lookup, DistanceMatrix m]"

definition stop :: "int \<Rightarrow> int \<Rightarrow> int \<Rightarrow> demand" where
  "stop z w p = \<lparr>zipcode = Some z, weight = Some w, pallets = Some p\<rparr>"

definition demo_rows :: "demand list" where
  "demo_rows =
     [\<lparr>zipcode = Some 10, weight = Some 20000, pallets = Some 10\<rparr>,
      \<lparr>zipcode = Some 20, weight = Some 30000, pallets = Some 12\<rparr>,
      \<lparr>zipcode = Some 20, weight = Some 5000, pallets = Some 3\<rparr>]"

definition demo_lookup :: "(int \<times> int) list" where
  "demo_lookup = [(10, 0), (20, 1)]"

definition demo_matrix :: "real list list" where
  "demo_matrix = [[0, 7], [9, 0]]"

definition demo_heap :: heap where
  "demo_heap = [DataFrame demo_rows, ZipLookup demo_lookup, DistanceMatrix demo_matrix]"

definition demo_env :: environment where
  "demo_env = \<lparr>df = 0, zip_lookup = 1, distance_matrix = 2\<rparr>"


subsection \<open>Invariants of the engine and an example run\<close>

definition engine_inv :: "config \<Rightarrow> engine_state \<Rightarrow> bool" where
  "engine_inv cfg st \<longleftrightarrow>
     validate cfg = None \<and>
     length (population st) = population_size cfg \<and>
     list_all (\<lambda>x. length x = record_count cfg) (population st) \<and>
     (case best st of None \<Rightarrow> True | Some b \<Rightarrow> length (fst b) = record_count cfg)"

definition trace_inv :: "engine_state \<Rightarrow> bool" where
  "trace_inv st \<longleftrightarrow>
     sorted_wrt (\<lambda>a b. snd b \<le> snd a) (trace st) \<and>
     list_all (\<lambda>y. case best st of None \<Rightarrow> False | Some b \<Rightarrow> snd b \<le> snd y) (trace st)"

definition total_fit :: "individual \<Rightarrow> real option" where
  "total_fit x = Some (real_of_int (sum_list x))"

definition demo_rng :: rng where
  "demo_rng i = (7 * i + 3) mod 11"

definition demo_config :: config where
  "demo_config = \<lparr>first_individual = [2, 2, 2], record_count = 3, n_generations = 2,
     population_size = 2, elitism_count = 1, mutation_rate = 1 / 2, crossover_rate = 4 / 5,
     tournament_size = 2, vehicle_count = 3, convergence_patience = None\<rparr>"

definition demo_initial :: engine_state where
  "demo_initial = \<lparr>population = [[2, 2, 2], [1, 2, 2]], generation = 0, best = None,
     trace = [], stale = 0, rng_pos = 6\<rparr>"

section \<open>The evaluator reads the environment and writes only its own copy\<close>

subsection \<open>The shifted columns\<close>

lemma zip_butlast_Cons:
  "length xs = length rs \<Longrightarrow> zip rs (c0 # butlast xs) = zip rs (c0 # xs)"
proof (induction rs arbitrary: c0 xs)
  case Nil
  then show ?case by simp
next
  case (Cons r rs)
  then show ?case by (cases xs) auto
qed

lemma with_prev_map2:
  "map2 (\<lambda>r c. r\<lparr>prev_chromosomes := c\<rparr>)
     (map2 (\<lambda>r c. r\<lparr>prev_zip := c\<rparr>) rs ((case p of None \<Rightarrow> None | Some q \<Rightarrow> zipcode q) # map zipcode rs))
     (map_option chromosomes p # map (\<lambda>r. Some (chromosomes r)) rs) = with_prev p rs"
proof (induction rs arbitrary: p)
  case Nil
  then show ?case by simp
next
  case (Cons r rs)
  from Cons.IH [of "Some r"] show ?case by simp
qed

lemma chromosomes_set_prev_zip:
  "length col = length rs \<Longrightarrow> map (\<lambda>r. Some (chromosomes r)) (set_prev_zip col rs) = map (\<lambda>r. Some (chromosomes r)) rs"
  unfolding set_prev_zip_def
  by (induction rs arbitrary: col) (auto simp: length_Suc_conv)

lemma length_shift: "length (shift xs) = length xs"
  by (cases xs) (simp_all add: shift_def)

lemma shifted_rows:
  "set_prev_chromosomes (shift (map (\<lambda>r. Some (chromosomes r)) (set_prev_zip (shift (map zipcode rs)) rs)))
     (set_prev_zip (shift (map zipcode rs)) rs) = with_prev None rs"
proof (cases rs)
  case Nil
  then show ?thesis by (simp add: set_prev_chromosomes_def set_prev_zip_def shift_def)
next
  case (Cons r rs')
  have len: "length (shift (map zipcode rs)) = length rs" by (simp add: length_shift)
  have ne: "rs \<noteq> []" using Cons by simp
  have a: "set_prev_zip (shift (map zipcode rs)) rs
             = map2 (\<lambda>r c. r\<lparr>prev_zip := c\<rparr>) rs (None # map zipcode rs)"
    using ne by (simp add: set_prev_zip_def shift_def zip_butlast_Cons)
  have b: "shift (map (\<lambda>r. Some (chromosomes r)) (set_prev_zip (shift (map zipcode rs)) rs))
             = None # butlast (map (\<lambda>r. Some (chromosomes r)) rs)"
    by (simp only: chromosomes_set_prev_zip [OF len]) (simp add: shift_def ne)
  have c: "length (map (\<lambda>r. Some (chromosomes r)) rs)
             = length (map2 (\<lambda>r c. r\<lparr>prev_zip := c\<rparr>) rs (None # map zipcode rs))"
    by simp
  have "set_prev_chromosomes (shift (map (\<lambda>r. Some (chromosomes r)) (set_prev_zip (shift (map zipcode rs)) rs)))
          (set_prev_zip (shift (map zipcode rs)) rs)
        = set_prev_chromosomes (None # butlast (map (\<lambda>r. Some (chromosomes r)) rs))
            (set_prev_zip (shift (map zipcode rs)) rs)"
    by (simp only: b)
  also have "\<dots> = set_prev_chromosomes (None # butlast (map (\<lambda>r. Some (chromosomes r)) rs))
            (map2 (\<lambda>r c. r\<lparr>prev_zip := c\<rparr>) rs (None # map zipcode rs))"
    by (simp only: a)
  also have "\<dots> = map2 (\<lambda>r c. r\<lparr>prev_chromosomes := c\<rparr>)
            (map2 (\<lambda>r c. r\<lparr>prev_zip := c\<rparr>) rs (None # map zipcode rs))
            (None # map (\<lambda>r. Some (chromosomes r)) rs)"
    by (simp only: set_prev_chromosomes_def zip_butlast_Cons [OF c])
  also have "\<dots> = with_prev None rs"
    using with_prev_map2 [of rs None] by simp
  finally show ?thesis .
qed

lemma get_distance_with_prev:
  assumes "deref h (zip_lookup e) = Some (ZipLookup lookup)"
      and "deref h (distance_matrix e) = Some (DistanceMatrix m)"
  shows "get_distance e h (r\<lparr>prev_zip := (case p of None \<Rightarrow> None | Some q \<Rightarrow> zipcode q),
           prev_chromosomes := map_option chromosomes p\<rparr>)
         = (case p of None \<Rightarrow> Inr None | Some q \<Rightarrow> pair_cell lookup m q r)"
  using assms
  by (auto simp: get_distance_def pair_cell_def matrix_distance_def
           split: option.splits sum.splits)

lemma get_distance_pure:
  assumes "deref h (zip_lookup e) = Some (ZipLookup lookup)"
      and "deref h (distance_matrix e) = Some (DistanceMatrix m)"
  shows "apply_rows (get_distance e h) (with_prev p rs) = pair_cells lookup m p rs"
proof (induction rs arbitrary: p)
  case Nil
  then show ?case by simp
next
  case (Cons r rs)
  show ?case
    by (simp add: get_distance_with_prev [OF assms] Cons.IH split: sum.splits option.splits)
qed

lemma pair_cells_length: "pair_cells lookup m p rs = Inr cs \<Longrightarrow> length cs = length rs"
  by (induction rs arbitrary: p cs) (auto split: sum.splits)

lemma length_with_prev: "length (with_prev p rs) = length rs"
  by (induction rs arbitrary: p) auto

lemma distance_set_distance:
  "length ds = length rs \<Longrightarrow> map distance (set_distance ds rs) = ds"
  unfolding set_distance_def
  by (induction rs arbitrary: ds) (auto simp: length_Suc_conv)

subsection \<open>The heap\<close>

lemma deref_append: "deref h a = Some v \<Longrightarrow> deref (h @ xs) a = Some v"
  by (auto simp: deref_def nth_append split: if_splits)

lemma deref_bound: "deref h a = Some v \<Longrightarrow> a < length h"
  by (simp add: deref_def split: if_splits)

lemma get_distance_penalty_pure:
  assumes lk: "deref h (zip_lookup e) = Some (ZipLookup lookup)"
      and mx: "deref h (distance_matrix e) = Some (DistanceMatrix m)"
  shows "fst (get_distance_penalty argsort e (length h) (h @ [Decoded dec])) =
           (case pair_cells lookup m None (sort_values argsort dec) of
              Inl er \<Rightarrow> Inl er
            | Inr cs \<Rightarrow> Inr (nansum cs))"
proof -
  have here: "deref (h @ [Decoded dec]) (length h) = Some (Decoded dec)"
    by (simp add: deref_def)
  note pure = get_distance_pure [OF deref_append [OF lk] deref_append [OF mx]]
  show ?thesis
    unfolding get_distance_penalty_def here Let_def shifted_rows
    by (auto simp: pure distance_set_distance length_with_prev
          dest!: pair_cells_length split: sum.splits)
qed

lemma fitness_func_pure:
  assumes fr: "deref h (df e) = Some (DataFrame rows)"
      and lk: "deref h (zip_lookup e) = Some (ZipLookup lookup)"
      and mx: "deref h (distance_matrix e) = Some (DistanceMatrix m)"
  shows "fst (fitness_func argsort individual e h) =
           (case setitem_chromosomes individual rows of
              Inl er \<Rightarrow> Inl er
            | Inr dec \<Rightarrow>
                (case pair_cells lookup m None (sort_values argsort dec) of
                   Inl er \<Rightarrow> Inl er
                 | Inr cs \<Rightarrow> Inr (real_of_int (weight_penalty dec) + real_of_int (pallet_penalty dec)
                                  + nansum cs)))"
proof (cases "setitem_chromosomes individual rows")
  case (Inl er)
  then show ?thesis by (simp add: fitness_func_def decode_def fr)
next
  case (Inr dec)
  have upd: "(h @ [DataFrame rows])[length h := Decoded dec] = h @ [Decoded dec]"
    by simp
  have here: "deref (h @ [Decoded dec]) (length h) = Some (Decoded dec)"
    by (simp add: deref_def)
  show ?thesis
  proof (cases "get_distance_penalty argsort e (length h) (h @ [Decoded dec])")
    case (Pair r h2)
    with get_distance_penalty_pure [OF lk mx, of argsort dec] show ?thesis
      by (simp add: fitness_func_def decode_def fr Inr upd here split: sum.splits)
  qed
qed

lemma decode_frame: "take (length h) (snd (decode individual e h)) = h"
  by (simp add: decode_def Let_def split: option.splits obj.splits sum.splits)

lemma decode_addr:
  "decode individual e h = (Inr a, h1) \<Longrightarrow> a = length h"
  by (auto simp: decode_def Let_def split: option.splits obj.splits sum.splits)

lemma get_distance_penalty_frame:
  "n \<le> a \<Longrightarrow> take n (snd (get_distance_penalty argsort e a h1)) = take n h1"
  by (simp add: get_distance_penalty_def Let_def split: option.splits obj.splits sum.splits)

lemma fitness_func_frame: "take (length h) (snd (fitness_func argsort individual e h)) = h"
proof (cases "decode individual e h")
  case (Pair r h1)
  have h1: "take (length h) h1 = h" using decode_frame [of h individual e] Pair by simp
  show ?thesis
  proof (cases r)
    case (Inl er)
    then show ?thesis using Pair h1 by (simp add: fitness_func_def)
  next
    case (Inr a)
    have a: "a = length h" using Pair Inr decode_addr by blast
    have "take (length h) (snd (get_distance_penalty argsort e a h1)) = h"
      using get_distance_penalty_frame [of "length h" a argsort e h1] a h1 by simp
    then show ?thesis using Pair Inr h1
      by (auto simp: fitness_func_def split: option.splits obj.splits sum.splits prod.splits)
  qed
qed

lemma deref_take:
  assumes "take (length h) h' = h" "deref h a = Some v"
  shows "deref h' a = Some v"
proof -
  from assms(2) have a: "a < length h" by (rule deref_bound)
  have "length (take (length h) h') = length h" using assms(1) by simp
  then have "length h \<le> length h'" by simp
  moreover have "h' ! a = h ! a" using assms(1) a by (metis nth_take)
  ultimately show ?thesis using assms(2) a by (simp add: deref_def)
qed

lemma env_at_take:
  "take (length h) h' = h \<Longrightarrow> env_at h e rows lookup m \<Longrightarrow> env_at h' e rows lookup m"
  by (simp add: env_at_def deref_take)

lemma fitness_func_reads_environment:
  assumes "env_at h e rows lookup m" "env_at h' e' rows lookup m"
  shows "fst (fitness_func argsort individual e h) = fst (fitness_func argsort individual e' h')"
  using assms by (simp add: env_at_def fitness_func_pure)

subsection \<open>Example data\<close>

lemma env_at_mk_heap: "env_at (mk_heap rows lookup m) demo_env rows lookup m"
  by (simp add: env_at_def mk_heap_def demo_env_def deref_def)

lemma fitness_func_mk_heap:
  "fst (fitness_func argsort individual demo_env (mk_heap rows lookup m)) =
           (case setitem_chromosomes individual rows of
              Inl er \<Rightarrow> Inl er
            | Inr dec \<Rightarrow>
                (case pair_cells lookup m None (sort_values argsort dec) of
                   Inl er \<Rightarrow> Inl er
                 | Inr cs \<Rightarrow> Inr (real_of_int (weight_penalty dec) + real_of_int (pallet_penalty dec)
                                  + nansum cs)))"
  using env_at_mk_heap [of rows lookup m] by (simp add: env_at_def fitness_func_pure)

lemmas eval_simps = setitem_chromosomes_def with_chromosome_def nan_row_def stop_def
  sort_values_def stable_argsort_def reversing_argsort_def upt_rec
  pair_cell_def matrix_distance_def getitem_def weight_penalty_def pallet_penalty_def
  groupby_sum_def nansum_def max_weight_def max_pallets_def

lemma demo_env_at: "env_at demo_heap demo_env demo_rows demo_lookup demo_matrix"
  by (simp add: env_at_def demo_heap_def demo_env_def deref_def)










lemma demo_df: "deref demo_heap (df demo_env) = Some (DataFrame demo_rows)"
  using demo_env_at by (simp add: env_at_def)

lemma demo_rows_nonempty: "demo_rows \<noteq> []"
  by (simp add: demo_rows_def)



section \<open>The score\<close>

lemma consecutive_simps [simp]:
  "consecutive [] = []" "consecutive [x] = []"
  "consecutive (x # y # zs) = (x, y) # consecutive (y # zs)"
  by (simp_all add: consecutive_def)





subsection \<open>Sorting\<close>





lemma insort_key_map:
  "insort_key f (g x) (map g xs) = map g (insort_key (f \<circ> g) x xs)"
  by (induction xs) auto

lemma sort_key_map:
  "sort_key f (map g xs) = map g (sort_key (f \<circ> g) xs)"
  by (induction xs) (auto simp: insort_key_map comp_def)

lemma zip_map_upt:
  "zip (map k rows) [0..<length rows] = map (\<lambda>i. (k (rows ! i), i)) [0..<length rows]"
  by (rule nth_equalityI) auto

lemma stable_argsort_sort_key:
  "stable_argsort (map k rows) = sort_key (\<lambda>i. k (rows ! i)) [0..<length rows]"
proof -
  have "stable_argsort (map k rows) = map snd (sort_key fst (map (\<lambda>i. (k (rows ! i), i)) [0..<length rows]))"
    by (simp add: stable_argsort_def zip_map_upt)
  also have "\<dots> = map snd (map (\<lambda>i. (k (rows ! i), i)) (sort_key (\<lambda>i. k (rows ! i)) [0..<length rows]))"
    by (simp only: sort_key_map comp_def fst_conv)
  also have "\<dots> = sort_key (\<lambda>i. k (rows ! i)) [0..<length rows]"
    by (simp add: comp_def)
  finally show ?thesis .
qed


lemma stable_argsort_ok: "argsort_ok stable_argsort ks"
proof -
  have eq: "stable_argsort ks = sort_key (\<lambda>i. ks ! i) [0..<length ks]"
    using stable_argsort_sort_key [of id ks] by simp
  have "mset (stable_argsort ks) = mset [0..<length ks]"
    by (simp add: eq)
  then have "sort (stable_argsort ks) = sort [0..<length ks]"
    by (metis properties_for_sort sorted_sort mset_sort)
  then have a: "sort (stable_argsort ks) = [0..<length ks]"
    by (simp add: sorted_sort_id)
  have b: "sorted (map (\<lambda>i. ks ! i) (stable_argsort ks))"
    unfolding eq by (rule sorted_sort_key)
  from a b show ?thesis by (simp add: argsort_ok_def)
qed

subsection \<open>Regrouping the consecutive pairs of a sorted list by key\<close>













text \<open>
  Claim C4. Two calls of the evaluator on the same individual and environment, the
  second in the heap the first one left, return equal results.
\<close>

theorem fitness_func_deterministic:
  assumes "env_at h e rows lookup m"
      and "fitness_func argsort individual e h = (score1, h1)"
      and "fitness_func argsort individual e h1 = (score2, h2)"
  shows "score1 = score2"
proof -
  have "take (length h) h1 = h"
    using fitness_func_frame [of h argsort individual e] assms(2) by simp
  then have "env_at h1 e rows lookup m"
    using assms(1) by (rule env_at_take)
  from fitness_func_reads_environment [OF assms(1) this, of argsort individual]
  show ?thesis by (simp add: assms(2,3))
qed

theorem fitness_func_deterministic_witness:
  "fst (fitness_func stable_argsort [1, 0, 1] demo_env
         (snd (fitness_func stable_argsort [1, 0, 1] demo_env demo_heap)))
   = fst (fitness_func stable_argsort [1, 0, 1] demo_env demo_heap)"
  using fitness_func_deterministic [OF demo_env_at prod.collapse [symmetric] prod.collapse [symmetric]]
  by simp

subsection \<open>Sign of the score\<close>








text \<open>
  Claim C6. After the evaluator returns or raises, the environment's demand records,
  lookup table and distance matrix are what they were, and so is every object that
  existed before the call: the evaluator writes to its own copy of the demand frame only.
\<close>

theorem environment_unchanged:
  assumes "env_at h e rows lookup m"
  shows "env_at (snd (fitness_func argsort individual e h)) e rows lookup m \<and>
         take (length h) (snd (fitness_func argsort individual e h)) = h"
  using env_at_take [OF fitness_func_frame assms] fitness_func_frame by blast

theorem environment_unchanged_witness:
  "env_at (snd (fitness_func stable_argsort [1, 0, 1] demo_env demo_heap)) demo_env
     demo_rows demo_lookup demo_matrix \<and>
   take 3 (snd (fitness_func stable_argsort [1, 0, 1] demo_env demo_heap)) = demo_heap"
  using environment_unchanged [OF demo_env_at, of stable_argsort "[1, 0, 1]"]
  by (simp add: demo_heap_def numeral_3_eq_3)

subsection \<open>The lookup\<close>








text \<open>
  Claim C10, as amended. For an environment with at least one demand record: when the
  individual's length differs from the number of records the evaluator raises ValueError
  (so it completes only when the lengths are equal), and when the lengths are equal
  \<^verbatim>\<open>decode\<close> returns the new frame.
\<close>

theorem length_mismatch_raises:
  assumes "deref h (df e) = Some (DataFrame rows)" and "rows \<noteq> []"
  shows "(length individual \<noteq> length rows \<longrightarrow>
            fst (fitness_func argsort individual e h) = Inl ValueError) \<and>
         (length individual = length rows \<longrightarrow>
            fst (decode individual e h) = Inr (length h))"
  using assms
  by (auto simp: fitness_func_def decode_def setitem_chromosomes_def Let_def)

theorem length_mismatch_raises_witness:
  "fst (fitness_func stable_argsort [1, 0] demo_env demo_heap) = Inl ValueError \<and>
   fst (decode [1, 0, 1] demo_env demo_heap) = Inr 3"
  using length_mismatch_raises [OF demo_df demo_rows_nonempty, of "[1, 0]" stable_argsort]
    length_mismatch_raises [OF demo_df demo_rows_nonempty, of "[1, 0, 1]" stable_argsort]
  by (simp add: demo_rows_def demo_heap_def)

text \<open>
  Claim C10 as stated fails on an environment without demand records: the column
  assignment extends the empty frame to the individual's length, and the evaluator
  returns a score although the lengths differ.
\<close>

theorem empty_frame_counterexample:
  "length [0::int] \<noteq> length ([]::demand list) \<and>
   fst (fitness_func stable_argsort [0] demo_env (mk_heap [] [(10, 0), (20, 1)] [[0, 7], [9, 0]]))
   = Inr 45025"
  by (simp add: fitness_func_mk_heap eval_simps)

section \<open>The engine\<close>

lemma mutate_length: "length (fst (mutate rnd pos rate vc xs)) = length xs"
proof (induction xs arbitrary: pos)
  case Nil
  then show ?case by simp
next
  case (Cons g gs)
  obtain gs' pos' where r: "mutate rnd (pos + 2) rate vc gs = (gs', pos')"
    by (cases "mutate rnd (pos + 2) rate vc gs")
  from Cons.IH [of "pos + 2"] r have "length gs' = length gs" by simp
  with r show ?case by (simp add: Let_def)
qed

lemma uniform_crossover_length:
  "length a = length b \<Longrightarrow> length (uniform_crossover rnd pos a b) = length a"
  by (induction a b arbitrary: pos rule: list_induct2') auto

lemma crossover_length:
  "length a = n \<Longrightarrow> length b = n \<Longrightarrow> length (fst (crossover rnd pos rate a b)) = n"
  by (simp add: crossover_def uniform_crossover_length)

lemma uniform_below_less: "0 < n \<Longrightarrow> uniform_below rnd pos n < n"
  by (simp add: uniform_below_def)

lemma tournament_member:
  "cs \<noteq> [] \<Longrightarrow> winner \<in> set cs \<Longrightarrow> tournament rnd pos k cs winner \<in> set cs"
proof (induction k arbitrary: pos winner)
  case 0
  then show ?case by simp
next
  case (Suc k)
  have "cs ! uniform_below rnd pos (length cs) \<in> set cs"
    using Suc.prems(1) by (simp add: uniform_below_less)
  with Suc show ?case by (simp add: Let_def)
qed

lemma select_member: "cs \<noteq> [] \<Longrightarrow> select rnd pos k cs \<in> set cs"
  unfolding select_def
  by (rule tournament_member) (simp_all add: uniform_below_less)

lemma breed_lengths:
  assumes "cs \<noteq> []" "\<forall>c\<in>set cs. length (fst c) = n"
  shows "length (fst (breed cfg rnd pos cs m)) = m \<and>
         (\<forall>x\<in>set (fst (breed cfg rnd pos cs m)). length x = n)"
proof (induction m arbitrary: pos)
  case 0
  then show ?case by simp
next
  case (Suc m)
  let ?k = "tournament_size cfg"
  let ?a = "select rnd pos ?k cs" and ?b = "select rnd (pos + ?k) ?k cs"
  have a: "length (fst ?a) = n" and b: "length (fst ?b) = n"
    using assms select_member [OF assms(1)] by auto
  obtain c pos1 where c: "crossover rnd (pos + 2 * ?k) (crossover_rate cfg) (fst ?a) (fst ?b) = (c, pos1)"
    by (cases "crossover rnd (pos + 2 * ?k) (crossover_rate cfg) (fst ?a) (fst ?b)")
  have lc: "length c = n" using crossover_length [OF a b, of rnd "pos + 2 * ?k" "crossover_rate cfg"] c by simp
  obtain c' pos2 where c': "mutate rnd pos1 (mutation_rate cfg) (vehicle_count cfg) c = (c', pos2)"
    by (cases "mutate rnd pos1 (mutation_rate cfg) (vehicle_count cfg) c")
  have lc': "length c' = n" using mutate_length [of rnd pos1 "mutation_rate cfg" "vehicle_count cfg" c] c' lc by simp
  obtain rest pos3 where rest: "breed cfg rnd pos2 cs m = (rest, pos3)"
    by (cases "breed cfg rnd pos2 cs m")
  from Suc.IH [of pos2] rest have "length rest = m" "\<forall>x\<in>set rest. length x = n" by auto
  then show ?case using c c' rest lc' by (simp add: Let_def)
qed

lemma evaluate_fst: "evaluate fit pop = Inr cs \<Longrightarrow> map fst cs = pop"
  by (induction pop arbitrary: cs) (auto split: option.splits sum.splits)

lemma perturbed_lengths:
  "length (fst (perturbed rnd pos vc seed m)) = m \<and>
   (\<forall>x\<in>set (fst (perturbed rnd pos vc seed m)). length x = length seed)"
proof (induction m arbitrary: pos)
  case 0
  then show ?case by simp
next
  case (Suc m)
  obtain x pos1 where x: "mutate rnd pos (1 / 2) vc seed = (x, pos1)"
    by (cases "mutate rnd pos (1 / 2) vc seed")
  have lx: "length x = length seed" using mutate_length [of rnd pos "1 / 2" vc seed] x by simp
  obtain rest pos2 where rest: "perturbed rnd pos1 vc seed m = (rest, pos2)"
    by (cases "perturbed rnd pos1 vc seed m")
  from Suc.IH [of pos1] rest have "length rest = m" "\<forall>x\<in>set rest. length x = length seed" by auto
  then show ?case using x rest lx by simp
qed

lemma validate_sizes:
  "validate cfg = None \<Longrightarrow> 2 \<le> population_size cfg \<and> 1 \<le> n_generations cfg \<and>
     length (first_individual cfg) = record_count cfg"
  by (auto simp: validate_def split: if_splits)

lemma initialize_inv:
  assumes "initialize cfg rnd = Inr st"
  shows "engine_inv cfg st \<and> trace_inv st"
proof -
  from assms have v: "validate cfg = None"
    by (auto simp: initialize_def split: option.splits)
  obtain others pos where o: "perturbed rnd 0 (vehicle_count cfg) (first_individual cfg) (population_size cfg - 1) = (others, pos)"
    by (cases "perturbed rnd 0 (vehicle_count cfg) (first_individual cfg) (population_size cfg - 1)")
  from perturbed_lengths [of rnd 0 "vehicle_count cfg" "first_individual cfg" "population_size cfg - 1"] o
  have lo: "length others = population_size cfg - 1" "\<forall>x\<in>set others. length x = length (first_individual cfg)"
    by auto
  from assms v o have st: "st = \<lparr>population = first_individual cfg # others, generation = 0, best = None,
                   trace = [], stale = 0, rng_pos = pos\<rparr>"
    by (simp add: initialize_def)
  show ?thesis
    using validate_sizes [OF v] lo v
    by (auto simp: st engine_inv_def trace_inv_def list_all_iff)
qed

lemma next_population_lengths:
  assumes "ranked \<noteq> []" "\<forall>c\<in>set ranked. length (fst c) = n" "length ranked = population_size cfg"
  shows "length (fst (next_population cfg rnd pos ranked)) = population_size cfg \<and>
         (\<forall>x\<in>set (fst (next_population cfg rnd pos ranked)). length x = n)"
proof -
  let ?kept = "elites cfg ranked"
  have k1: "length ?kept \<le> population_size cfg" using assms(3) by (simp add: elites_def)
  have k2: "\<forall>x\<in>set ?kept. length x = n"
    using assms(2) by (auto simp: elites_def dest: in_set_takeD)
  from breed_lengths [OF assms(1,2), of cfg rnd pos "population_size cfg - length ?kept"] k1 k2
  show ?thesis
    by (auto simp: next_population_def Let_def split: prod.splits)
qed

lemma generation_step_inv:
  assumes inv: "engine_inv cfg st" "trace_inv st"
      and step: "generation_step cfg fit rnd st = Inr st'"
  shows "engine_inv cfg st' \<and> trace_inv st'"
proof -
  from step obtain cs where cs: "evaluate fit (population st) = Inr cs"
    by (auto simp: generation_step_def split: sum.splits)
  from step cs obtain leader others where ranked: "sort_key snd cs = leader # others"
    by (auto simp: generation_step_def split: list.splits)
  let ?ranked = "leader # others"
  let ?best' = "case best st of None \<Rightarrow> leader | Some b \<Rightarrow> if snd leader < snd b then leader else b"
  obtain pop' pos' where np: "next_population cfg rnd (rng_pos st) ?ranked = (pop', pos')"
    by (cases "next_population cfg rnd (rng_pos st) ?ranked")
  have st': "population st' = pop'" "best st' = Some ?best'"
       "trace st' = trace st @ [(generation st, snd ?best')]"
    using step cs ranked np by (auto simp: generation_step_def Let_def)
  have "set ?ranked = set cs" using ranked by (metis set_sort)
  moreover have "map fst cs = population st" by (rule evaluate_fst [OF cs])
  ultimately have members: "\<forall>c\<in>set ?ranked. fst c \<in> set (population st)"
    by (metis image_eqI list.set_map)
  have lens: "\<forall>c\<in>set ?ranked. length (fst c) = record_count cfg"
    using members inv(1) by (auto simp: engine_inv_def list_all_iff)
  have "length ?ranked = length cs" using ranked by (metis length_sort)
  also have "\<dots> = length (population st)" using evaluate_fst [OF cs] by (metis length_map)
  finally have size: "length ?ranked = population_size cfg"
    using inv(1) by (simp add: engine_inv_def)
  from next_population_lengths [OF _ lens size, of rnd "rng_pos st"] np
  have pop': "length pop' = population_size cfg" "\<forall>x\<in>set pop'. length x = record_count cfg"
    by auto
  have best_len: "length (fst ?best') = record_count cfg"
    using lens inv(1) by (auto simp: engine_inv_def split: option.splits)
  have e: "engine_inv cfg st'"
    using inv(1) pop' best_len by (simp add: engine_inv_def st' list_all_iff)
  have t: "trace_inv st'"
    using inv(2) by (auto simp: trace_inv_def st' sorted_wrt_append list_all_iff split: option.splits)
  from e t show ?thesis ..
qed

lemma reachable_inv: "reachable cfg fit rnd st \<Longrightarrow> engine_inv cfg st \<and> trace_inv st"
proof (induction rule: reachable.induct)
  case (initial st)
  then show ?case by (rule initialize_inv)
next
  case (step st st')
  then show ?case using generation_step_inv by blast
qed

lemma run_loop_reachable:
  "reachable cfg fit rnd st \<Longrightarrow> run_loop cfg fit rnd k st = Inr st' \<Longrightarrow> reachable cfg fit rnd st'"
proof (induction k arbitrary: st)
  case 0
  then show ?case by simp
next
  case (Suc k)
  from Suc.prems(2) obtain st1 where s1: "generation_step cfg fit rnd st = Inr st1"
    by (auto split: sum.splits)
  have r1: "reachable cfg fit rnd st1" using Suc.prems(1) s1 by (rule reachable.step)
  show ?case
  proof (cases "stop_early cfg st1")
    case True
    with Suc.prems(2) s1 have "st' = st1" by simp
    with r1 show ?thesis by simp
  next
    case False
    with Suc.prems(2) s1 have "run_loop cfg fit rnd k st1 = Inr st'" by simp
    with Suc.IH r1 show ?thesis by blast
  qed
qed

lemma run_reachable:
  assumes "run cfg fit rnd = Inr res"
  shows "\<exists>st. reachable cfg fit rnd st \<and> best st = Some (best_individual res, best_score res)
              \<and> trace st = run_trace res"
proof -
  from assms obtain st0 where i: "initialize cfg rnd = Inr st0"
    by (auto simp: run_def split: sum.splits)
  from assms i obtain st where l: "run_loop cfg fit rnd (n_generations cfg) st0 = Inr st"
    by (auto simp: run_def split: sum.splits)
  from assms i l obtain x s where b: "best st = Some (x, s)" and
    res: "res = \<lparr>best_individual = x, best_score = s, run_trace = trace st\<rparr>"
    by (auto simp: run_def split: option.splits)
  have "reachable cfg fit rnd st"
    using reachable.initial [OF i] l by (rule run_loop_reachable)
  with b res show ?thesis by auto
qed

lemma demo_run: "run demo_config total_fit demo_rng =
   Inr \<lparr>best_individual = [0, 1, 1], best_score = 2, run_trace = [(0, 5), (1, 2)]\<rparr>"
  by code_simp

lemma demo_initialize: "initialize demo_config demo_rng = Inr demo_initial"
  by code_simp

text \<open>
  Elitism: with \<open>elitism_count \<ge> 1\<close> the best-scoring individual of a generation is a
  member of the next population, unchanged.
\<close>

lemma elite_survives:
  assumes "generation_step cfg fit rnd st = Inr st'"
      and "evaluate fit (population st) = Inr candidates"
      and "sort_key snd candidates = leader # others"
      and "1 \<le> elitism_count cfg"
  shows "fst leader \<in> set (population st')"
proof -
  obtain children pos' where
    b: "breed cfg rnd (rng_pos st) (leader # others)
          (population_size cfg - length (elites cfg (leader # others))) = (children, pos')"
    by (cases "breed cfg rnd (rng_pos st) (leader # others)
          (population_size cfg - length (elites cfg (leader # others)))")
  have "population st' = elites cfg (leader # others) @ children"
    using assms(1,2,3) b by (auto simp: generation_step_def next_population_def Let_def)
  moreover have "fst leader \<in> set (elites cfg (leader # others))"
    using assms(4) by (cases "elitism_count cfg") (simp_all add: elites_def)
  ultimately show ?thesis by simp
qed

text \<open>
  Claim C8. Every individual of the population of every state the engine reaches has
  the length \<open>record_count\<close>, and so has the best individual \<^verbatim>\<open>run()\<close> returns.
\<close>

theorem individual_length_invariant:
  "(reachable cfg fit rnd st \<longrightarrow> (\<forall>x\<in>set (population st). length x = record_count cfg)) \<and>
   (run cfg fit rnd = Inr res \<longrightarrow> length (best_individual res) = record_count cfg)"
proof (intro conjI impI)
  assume "reachable cfg fit rnd st"
  from reachable_inv [OF this] show "\<forall>x\<in>set (population st). length x = record_count cfg"
    by (simp add: engine_inv_def list_all_iff)
next
  assume "run cfg fit rnd = Inr res"
  from run_reachable [OF this] obtain st' where
    "reachable cfg fit rnd st'" "best st' = Some (best_individual res, best_score res)" by blast
  with reachable_inv [of cfg fit rnd st'] show "length (best_individual res) = record_count cfg"
    by (simp add: engine_inv_def)
qed

theorem individual_length_invariant_witness:
  "reachable demo_config total_fit demo_rng demo_initial \<and>
   list_all (\<lambda>x. length x = record_count demo_config) (population demo_initial) \<and>
   run demo_config total_fit demo_rng =
     Inr \<lparr>best_individual = [0, 1, 1], best_score = 2, run_trace = [(0, 5), (1, 2)]\<rparr> \<and>
   length [0, 1, 1 :: int] = record_count demo_config"
  using individual_length_invariant [of demo_config total_fit demo_rng demo_initial
      "\<lparr>best_individual = [0, 1, 1], best_score = 2, run_trace = [(0, 5), (1, 2)]\<rparr>"]
    reachable.initial [OF demo_initialize, of total_fit] demo_run
  by (simp add: list_all_iff)



end
